theory Spec2Isabelle
  imports Main "HOL-Library.Sublist" "HOL-Library.Char_ord"
begin

section \<open>JavaScript strings\<close>

text \<open>
  A JavaScript string is a sequence of UTF-16 code units. The model uses Isabelle's
  \<open>string\<close> (a list of 8-bit characters) and reads a character as the code unit of
  the same number, so it covers the strings over U+0000..U+00FF. On that range
  \<^item> \<open>\s\<close> and \<open>trim()\<close> see the same characters: TAB, LF, VT, FF, CR, SPACE and
    NO-BREAK SPACE (U+00A0);
  \<^item> \<open>.\<close> in a regular expression (no \<open>s\<close> flag) is every character but a line
    terminator. JavaScript has four: LF, CR, U+2028 and U+2029. The last two
    are above U+00FF, so on the strings of the model the line terminators are LF
    and CR;
  \<^item> \<open>\w\<close> is \<open>[A-Za-z0-9_]\<close>;
  \<^item> \<open>toLowerCase()\<close> adds 32 to A-Z and to U+00C0..U+00DE except U+00D7, and
    changes nothing else;
  \<^item> a regular expression with the \<open>i\<close> flag and ASCII letters in the pattern
    matches a letter of the input iff both have the same lower-case form (no
    character outside ASCII is folded onto an ASCII letter).
\<close>

abbreviation NL :: char where
  "NL \<equiv> CHR 0x0A"

definition is_space :: "char \<Rightarrow> bool" where
  "is_space c = (c \<in> {CHR 0x09, CHR 0x0A, CHR 0x0B, CHR 0x0C, CHR 0x0D, CHR 0x20, CHR 0xA0})"

text \<open>
  The line terminators among U+0000..U+00FF. U+2028 (LINE SEPARATOR) and U+2029
  (PARAGRAPH SEPARATOR) are line terminators of JavaScript as well, and \<open>.\<close>
  refuses them too; no character of the model stands for them.
\<close>

definition is_line_terminator :: "char \<Rightarrow> bool" where
  "is_line_terminator c = (c \<in> {CHR 0x0A, CHR 0x0D})"

definition is_upper :: "char \<Rightarrow> bool" where
  "is_upper c = (CHR ''A'' \<le> c \<and> c \<le> CHR ''Z'')"

definition is_word :: "char \<Rightarrow> bool" where
  "is_word c = ((CHR ''a'' \<le> c \<and> c \<le> CHR ''z'') \<or> is_upper c \<or>
                (CHR ''0'' \<le> c \<and> c \<le> CHR ''9'') \<or> c = CHR ''_'')"

text \<open>The character class \<open>[\w-]\<close>.\<close>

definition is_scope_char :: "char \<Rightarrow> bool" where
  "is_scope_char c = (is_word c \<or> c = CHR ''-'')"

definition lower_char :: "char \<Rightarrow> char" where
  "lower_char c =
     (if is_upper c \<or> (CHR 0xC0 \<le> c \<and> c \<le> CHR 0xDE \<and> c \<noteq> CHR 0xD7)
      then char_of (of_char c + (32::nat)) else c)"

definition toLowerCase :: "string \<Rightarrow> string" where
  "toLowerCase s = map lower_char s"

text \<open>
  \<open>c.toUpperCase() === c\<close> for a one-character string \<open>c\<close>: false for a-z, for
  U+00E0..U+00FE except U+00F7, and for U+00B5, U+00DF and U+00FF, whose upper-case
  forms are U+039C, \<open>SS\<close> and U+0178.
\<close>

definition upper_fixed :: "char \<Rightarrow> bool" where
  "upper_fixed c =
     (\<not> ((CHR ''a'' \<le> c \<and> c \<le> CHR ''z'') \<or>
         (CHR 0xE0 \<le> c \<and> c \<le> CHR 0xFE \<and> c \<noteq> CHR 0xF7) \<or>
         c \<in> {CHR 0xB5, CHR 0xDF, CHR 0xFF}))"

definition trim :: "string \<Rightarrow> string" where
  "trim s = rev (dropWhile is_space (rev (dropWhile is_space s)))"

text \<open>\<open>s.split(sep)\<close> for a one-character separator: never the empty array.\<close>

fun split_on :: "char \<Rightarrow> string \<Rightarrow> string list" where
  "split_on sep [] = [[]]"
| "split_on sep (c # cs) =
     (let ls = split_on sep cs in if c = sep then [] # ls else (c # hd ls) # tl ls)"

text \<open>\<open>ls.join(sep)\<close>.\<close>

fun join :: "string \<Rightarrow> string list \<Rightarrow> string" where
  "join sep [] = []"
| "join sep [l] = l"
| "join sep (l # ls) = l @ sep @ join sep ls"

definition startsWith :: "string \<Rightarrow> string \<Rightarrow> bool" where
  "startsWith s p = prefix p s"

definition endsWith :: "string \<Rightarrow> string \<Rightarrow> bool" where
  "endsWith s p = suffix p s"

definition includes_str :: "string \<Rightarrow> string \<Rightarrow> bool" where
  "includes_str s p = sublist p s"

text \<open>A number inside a template literal: its decimal digits.\<close>

fun show_nat :: "nat \<Rightarrow> string" where
  "show_nat n =
     (if n < 10 then [char_of (48 + n)]
      else show_nat (n div 10) @ [char_of (48 + n mod 10)])"

text \<open>
  One alternative of \<open>/^(a1|a2|...)/i\<close>, a lower-case ASCII word \<open>a\<close>: it matches
  at the start of \<open>s\<close> when \<open>s\<close> begins with \<open>a\<close> up to case.
\<close>

definition ci_prefix :: "string \<Rightarrow> string \<Rightarrow> bool" where
  "ci_prefix a s = (length a \<le> length s \<and> toLowerCase (take (length a) s) = a)"

text \<open>
  \<open>/^(a1|a2|...)\s/i.test(s)\<close>: an alternative matches up to case and a whitespace
  character follows it.
\<close>

definition ci_prefix_space :: "string list \<Rightarrow> string \<Rightarrow> bool" where
  "ci_prefix_space alts s =
     list_ex (\<lambda>a. ci_prefix a s \<and> (case drop (length a) s of [] \<Rightarrow> False | c # _ \<Rightarrow> is_space c)) alts"

datatype js_error = TypeError

section \<open>Default configuration (src/config/defaults.js)\<close>

text \<open>
  An entry of \<open>defaults.types\<close>, with its \<open>value\<close>. The validator reads nothing else; \<open>name\<close> and
  \<open>emoji\<close> are display strings of the prompts and are left out.
\<close>

record type_entry =
  type_value :: string

definition defaults_types :: "type_entry list" where
  "defaults_types =
     map (\<lambda>v. \<lparr>type_value = v\<rparr>)
       [''feat'', ''fix'', ''docs'', ''style'', ''refactor'', ''perf'', ''test'',
        ''build'', ''ci'', ''chore'', ''revert'']"

text \<open>
  The object \<open>this.config\<close> of a validator. \<open>defaults.rules\<close> has no \<open>types\<close> entry;
  the field \<open>types\<close> is there for an override that brings one.
\<close>

record rule_config =
  maxSubjectLength :: nat
  minSubjectLength :: nat
  maxLineLength :: nat
  enforceImperative :: bool
  subjectCase :: string
  allowBreakingChanges :: "string list"
  types :: "type_entry list option"

definition defaults_rules :: rule_config where
  "defaults_rules =
     \<lparr>maxSubjectLength = 72, minSubjectLength = 3, maxLineLength = 100,
      enforceImperative = True, subjectCase = ''lowercase'',
      allowBreakingChanges = [''feat'', ''fix''], types = None\<rparr>"

text \<open>
  The partial mapping given to the constructor: \<open>None\<close> is a key that is not there.
\<close>

record rule_override =
  o_maxSubjectLength :: "nat option"
  o_minSubjectLength :: "nat option"
  o_maxLineLength :: "nat option"
  o_enforceImperative :: "bool option"
  o_subjectCase :: "string option"
  o_allowBreakingChanges :: "string list option"
  o_types :: "type_entry list option"

definition no_override :: rule_override where
  "no_override =
     \<lparr>o_maxSubjectLength = None, o_minSubjectLength = None, o_maxLineLength = None,
      o_enforceImperative = None, o_subjectCase = None, o_allowBreakingChanges = None,
      o_types = None\<rparr>"

text \<open>\<open>{ ...d, ...ov }\<close>: every key of the override replaces the default's.\<close>

definition spread :: "rule_config \<Rightarrow> rule_override \<Rightarrow> rule_config" where
  "spread d ov =
     \<lparr>maxSubjectLength = (case o_maxSubjectLength ov of Some x \<Rightarrow> x | None \<Rightarrow> maxSubjectLength d),
      minSubjectLength = (case o_minSubjectLength ov of Some x \<Rightarrow> x | None \<Rightarrow> minSubjectLength d),
      maxLineLength = (case o_maxLineLength ov of Some x \<Rightarrow> x | None \<Rightarrow> maxLineLength d),
      enforceImperative = (case o_enforceImperative ov of Some x \<Rightarrow> x | None \<Rightarrow> enforceImperative d),
      subjectCase = (case o_subjectCase ov of Some x \<Rightarrow> x | None \<Rightarrow> subjectCase d),
      allowBreakingChanges =
        (case o_allowBreakingChanges ov of Some x \<Rightarrow> x | None \<Rightarrow> allowBreakingChanges d),
      types = (case o_types ov of Some x \<Rightarrow> Some x | None \<Rightarrow> types d)\<rparr>"

section \<open>Validator (src/core/validator.js)\<close>

record validator =
  config :: rule_config
  validTypes :: "string list"

text \<open>The constructor: \<open>validTypes\<close> is read from \<open>defaults.types\<close>.\<close>

definition Validator :: "rule_override \<Rightarrow> validator" where
  "Validator ov =
     \<lparr>config = spread defaults_rules ov, validTypes = map type_value defaults_types\<rparr>"

record validation_result =
  valid :: bool
  errors :: "string list"

text \<open>
  The header pattern \<open>/^(\w+)(\([\w-]+\))?:\s*(.+)$/\<close>, matched from the start of
  the string to its end (no \<open>m\<close> flag). The matcher is deterministic up to the split
  between \<open>\s*\<close> and \<open>.+\<close>:
  \<^item> \<open>\w+\<close> must take every leading word character, since the next character has
    to be \<open>(\<close> or \<open>:\<close>;
  \<^item> the optional group, when it is entered, must take every character of
    \<open>[\w-]\<close> after the parenthesis, since \<open>)\<close> has to follow; when the group does not
    match, or the colon does not follow it, skipping the group leaves \<open>(\<close> where
    the colon has to be;
  \<^item> \<open>\s*\<close> is greedy and \<open>.+\<close> must reach the end of the string, so the subject
    is what follows the whitespace after the colon; when only whitespace follows
    the colon, \<open>\s*\<close> gives its last character back to \<open>.+\<close>. A line terminator
    in what \<open>.+\<close> has to cover makes the match fail.
  The result is the type, the text between the parentheses and the subject.
\<close>

definition header_match :: "string \<Rightarrow> (string \<times> string option \<times> string) option" where
  "header_match h =
     (let ty = takeWhile is_word h; r1 = dropWhile is_word h in
      if ty = [] then None
      else
        let (sc, r2) =
          (case r1 of
             [] \<Rightarrow> (None, r1)
           | c # r \<Rightarrow>
               if c = CHR ''(''
               then (let s = takeWhile is_scope_char r; r' = dropWhile is_scope_char r in
                     case r' of
                       [] \<Rightarrow> (None, r1)
                     | d # r'' \<Rightarrow> if d = CHR '')'' \<and> s \<noteq> [] then (Some s, r'') else (None, r1))
               else (None, r1))
        in
          (case r2 of
             [] \<Rightarrow> None
           | c # r3 \<Rightarrow>
               if c \<noteq> CHR '':'' then None
               else
                 let ws = takeWhile is_space r3; su = dropWhile is_space r3 in
                 if su \<noteq> [] then (if list_ex is_line_terminator su then None else Some (ty, sc, su))
                 else if ws = [] then None
                 else if is_line_terminator (last ws) then None
                 else Some (ty, sc, [last ws])))"

text \<open>
  \<open>conventionalPattern\<close> of \<open>validateHeader\<close>: its second group keeps the
  parentheses.
\<close>

definition conventionalPattern :: "string \<Rightarrow> (string \<times> string option \<times> string) option" where
  "conventionalPattern h =
     map_option (\<lambda>(ty, sc, su). (ty, map_option (\<lambda>s. ''('' @ s @ '')'') sc, su)) (header_match h)"

definition nonImperativePatterns :: "string list list" where
  "nonImperativePatterns =
     [[''adds'', ''adding'', ''added''],
      [''fixes'', ''fixing'', ''fixed''],
      [''updates'', ''updating'', ''updated''],
      [''removes'', ''removing'', ''removed''],
      [''creates'', ''creating'', ''created''],
      [''implements'', ''implementing'', ''implemented''],
      [''changes'', ''changing'', ''changed'']]"

definition isImperative :: "string \<Rightarrow> bool" where
  "isImperative subject = (\<not> list_ex (\<lambda>pattern. ci_prefix_space pattern subject) nonImperativePatterns)"

text \<open>
  \<open>subject[0]\<close> of the empty string is \<open>undefined\<close>, and \<open>undefined.toLowerCase()\<close>
  raises a TypeError; \<open>&&\<close> evaluates it only when \<open>subjectCase\<close> is \<open>"lowercase"\<close>.
\<close>

definition validateSubject :: "validator \<Rightarrow> string \<Rightarrow> js_error + string list" where
  "validateSubject v subject =
     (let c = config v;
          e1 = (if length subject > maxSubjectLength c
                then [''Subject is too long ('' @ show_nat (length subject) @ '' chars). Maximum is ''
                        @ show_nat (maxSubjectLength c)]
                else []);
          e2 = (if length subject < minSubjectLength c
                then [''Subject is too short ('' @ show_nat (length subject) @ '' chars). Minimum is ''
                        @ show_nat (minSubjectLength c)]
                else []);
          e3 = (if endsWith subject ''.'' then [''Subject must not end with a period''] else []);
          e4 = (if enforceImperative c \<and> \<not> isImperative subject
                then [''Subject must use imperative mood (e.g., \"add\" not \"adds\" or \"added\")'']
                else [])
      in
        if subjectCase c = ''lowercase''
        then (case subject of
                [] \<Rightarrow> Inl TypeError
              | s0 # _ \<Rightarrow>
                  Inr (e1 @ e2 @ e3 @ e4 @
                       (if [s0] \<noteq> toLowerCase [s0]
                        then [''Subject must start with lowercase letter''] else [])))
        else Inr (e1 @ e2 @ e3 @ e4))"

definition validateHeader :: "validator \<Rightarrow> string \<Rightarrow> js_error + string list" where
  "validateHeader v header =
     (case conventionalPattern header of
        None \<Rightarrow> Inr [''Header must follow format: type(scope): subject'']
      | Some (type, scope, subject) \<Rightarrow>
          (let e1 = (if type \<notin> set (validTypes v)
                     then [''Invalid type \"'' @ type @ ''\". Must be one of: ''
                             @ join '', '' (validTypes v)]
                     else []);
               e2 = (if type \<noteq> toLowerCase type then [''Type must be lowercase''] else [])
           in case validateSubject v subject of
                Inl e \<Rightarrow> Inl e
              | Inr subjectErrors \<Rightarrow> Inr (e1 @ e2 @ subjectErrors)))"

definition validateBody :: "validator \<Rightarrow> string list \<Rightarrow> string list" where
  "validateBody v bodyLines =
     concat (map (\<lambda>(index, line).
                    if length line > maxLineLength (config v)
                    then [''Body line '' @ show_nat (index + 1) @ '' is too long (''
                            @ show_nat (length line) @ '' chars). Maximum is ''
                            @ show_nat (maxLineLength (config v))]
                    else [])
                 (enumerate 0 bodyLines))"

definition validate :: "validator \<Rightarrow> string \<Rightarrow> js_error + validation_result" where
  "validate v message =
     (if message = [] \<or> length (trim message) = 0
      then Inr \<lparr>valid = False, errors = [''Commit message cannot be empty'']\<rparr>
      else
        let lines = split_on NL message; headerLine = hd lines in
        case validateHeader v headerLine of
          Inl e \<Rightarrow> Inl e
        | Inr headerErrors \<Rightarrow>
            (let errors = headerErrors @
                          (if length lines > 2 then validateBody v (drop 2 lines) else [])
             in Inr \<lparr>valid = (length errors = 0), errors = errors\<rparr>))"

text \<open>\<open>x || null\<close> for a string \<open>x\<close>: the empty string is falsy.\<close>

definition or_null :: "string \<Rightarrow> string option" where
  "or_null x = (if x = [] then None else Some x)"

text \<open>
  The loop of \<open>parse\<close> that looks for the body: \<open>find_body_start i ls\<close> runs it from
  index \<open>i\<close>, where \<open>ls\<close> are the lines from \<open>i\<close> on. A line counts when it trims to
  the empty string and is not the last one.
\<close>

fun find_body_start :: "nat \<Rightarrow> string list \<Rightarrow> nat option" where
  "find_body_start i [] = None"
| "find_body_start i (l # ls) =
     (if trim l = [] \<and> ls \<noteq> [] then Some (i + 1) else find_body_start (i + 1) ls)"

text \<open>\<open>xs.findIndex(P)\<close>, with \<open>None\<close> for \<open>-1\<close>.\<close>

fun findIndex :: "('a \<Rightarrow> bool) \<Rightarrow> 'a list \<Rightarrow> nat option" where
  "findIndex P [] = None"
| "findIndex P (x # xs) = (if P x then Some 0 else map_option Suc (findIndex P xs))"

definition is_footer_start :: "string \<Rightarrow> bool" where
  "is_footer_start line =
     (startsWith line ''BREAKING CHANGE:'' \<or> startsWith line ''Closes'' \<or>
      startsWith line ''Fixes'' \<or> startsWith line ''Refs'')"

record parsed_message =
  p_type :: string
  p_scope :: "string option"
  p_subject :: string
  p_body :: "string option"
  p_footer :: "string option"
  p_breaking :: bool

text \<open>
  The pattern of \<open>parse\<close> is the header pattern with one more group, around the
  text between the parentheses.
\<close>

definition parse :: "string \<Rightarrow> parsed_message option" where
  "parse message =
     (let lines = split_on NL message; headerLine = hd lines in
      case header_match headerLine of
        None \<Rightarrow> None
      | Some (type, scope, subject) \<Rightarrow>
          (let bodyStartIndex = find_body_start 1 (tl lines);
               (body, footer, breaking) =
                 (case bodyStartIndex of
                    None \<Rightarrow> ([], [], False)
                  | Some k \<Rightarrow>
                      (let bodyLines = drop k lines;
                           footerIndex = findIndex is_footer_start bodyLines;
                           (body, footer) =
                             (case footerIndex of
                                Some fi \<Rightarrow>
                                  (trim (join [NL] (take fi bodyLines)),
                                   trim (join [NL] (drop fi bodyLines)))
                              | None \<Rightarrow> (trim (join [NL] bodyLines), []))
                       in (body, footer, includes_str footer ''BREAKING CHANGE:'')))
           in Some \<lparr>p_type = type,
                    p_scope = (case scope of None \<Rightarrow> None | Some s \<Rightarrow> or_null s),
                    p_subject = subject,
                    p_body = or_null body,
                    p_footer = or_null footer,
                    p_breaking = breaking\<rparr>))"

section \<open>Formatter (src/core/formatter.js)\<close>

text \<open>The components object; \<open>None\<close> is \<open>null\<close> or a missing key.\<close>

record commit_components =
  c_type :: string
  c_scope :: "string option"
  c_subject :: string
  c_body :: "string option"
  c_breaking :: "string option"
  c_footer :: "string option"

text \<open>\<open>if (x)\<close> for a string or \<open>null\<close>: neither \<open>null\<close> nor the empty string.\<close>

definition truthy :: "string option \<Rightarrow> bool" where
  "truthy x = (case x of None \<Rightarrow> False | Some s \<Rightarrow> s \<noteq> [])"

text \<open>One round of the \<open>forEach\<close> of \<open>wrapText\<close>, on the pair of \<open>lines\<close> and \<open>currentLine\<close>.\<close>

definition wrap_step :: "nat \<Rightarrow> string list \<times> string \<Rightarrow> string \<Rightarrow> string list \<times> string" where
  "wrap_step maxLength st word =
     (case st of (lines, currentLine) \<Rightarrow>
        if length (currentLine @ word) \<le> maxLength
        then (lines, currentLine @ (if currentLine \<noteq> [] then '' '' else []) @ word)
        else (if currentLine \<noteq> [] then lines @ [currentLine] else lines, word))"

definition wrapText :: "string \<Rightarrow> nat \<Rightarrow> string" where
  "wrapText text maxLength =
     (if text = [] then []
      else
        let words = split_on CHR '' '' text;
            (lines, currentLine) = foldl (wrap_step maxLength) ([], []) words
        in join [NL] (if currentLine \<noteq> [] then lines @ [currentLine] else lines))"

definition format :: "commit_components \<Rightarrow> string" where
  "format components =
     (let header = c_type components @
                   (case c_scope components of
                      None \<Rightarrow> []
                    | Some scope \<Rightarrow> if scope \<noteq> [] then ''('' @ scope @ '')'' else []) @
                   '': '' @ c_subject components;
          parts = [header] @
                  (case c_body components of
                     None \<Rightarrow> []
                   | Some body \<Rightarrow> if body \<noteq> [] then [[], wrapText body 100] else []) @
                  (case c_breaking components of
                     None \<Rightarrow> []
                   | Some breaking \<Rightarrow>
                       if breaking \<noteq> [] then [[], ''BREAKING CHANGE: '' @ breaking] else []) @
                  (case c_footer components of
                     None \<Rightarrow> []
                   | Some footer \<Rightarrow>
                       if footer \<noteq> []
                       then (if \<not> truthy (c_breaking components) then [[]] else []) @ [footer]
                       else [])
      in join [NL] parts)"

text \<open>\<open>typeKeywords\<close>, in the order \<open>Object.entries\<close> lists its keys.\<close>

definition typeKeywords :: "(string \<times> string list) list" where
  "typeKeywords =
     [(''feat'', [''add'', ''create'', ''implement'', ''introduce'', ''new'']),
      (''fix'', [''fix'', ''resolve'', ''correct'', ''repair'', ''patch'', ''bug'']),
      (''docs'', [''document'', ''readme'', ''docs'', ''comment'']),
      (''refactor'', [''refactor'', ''restructure'', ''reorganize'', ''cleanup'']),
      (''test'', [''test'', ''testing'', ''spec'', ''coverage'']),
      (''style'', [''format'', ''styling'', ''indent'', ''whitespace'']),
      (''chore'', [''update'', ''upgrade'', ''dependency'', ''deps'', ''maintain'']),
      (''perf'', [''optimize'', ''performance'', ''faster'', ''speed''])]"

definition detectType :: "string \<Rightarrow> string option" where
  "detectType message =
     (let lowerMessage = toLowerCase message in
      map_option fst
        (find (\<lambda>(type, keywords). list_ex (\<lambda>keyword. includes_str lowerMessage keyword) keywords)
           typeKeywords))"

text \<open>
  \<open>s.replace(/^(a1|a2|...):\s*/i, "")\<close>: the first alternative that matches up to
  case and has the colon after it is removed with the colon and the whitespace
  that follows; without one the string is unchanged.
\<close>

definition strip_prefix :: "string list \<Rightarrow> string \<Rightarrow> string" where
  "strip_prefix alts s =
     (case find (\<lambda>a. ci_prefix a s \<and>
                      (case drop (length a) s of [] \<Rightarrow> False | c # _ \<Rightarrow> c = CHR '':'')) alts of
        None \<Rightarrow> s
      | Some a \<Rightarrow> dropWhile is_space (drop (length a + 1) s))"

record auto_formatted =
  a_type :: string
  a_subject :: string
  a_confidence :: string

definition autoFormat :: "string \<Rightarrow> string option \<Rightarrow> auto_formatted" where
  "autoFormat rawMessage detectedType =
     (let detected = (case detectType rawMessage of Some t \<Rightarrow> t | None \<Rightarrow> ''chore'');
          type = (case detectedType of
                    None \<Rightarrow> detected
                  | Some t \<Rightarrow> if t \<noteq> [] then t else detected);
          s1 = strip_prefix [''update'', ''updates'', ''updated'', ''updating'']
                 (strip_prefix [''add'', ''adds'', ''added'', ''adding'']
                    (strip_prefix [''fix'', ''fixes'', ''fixed'', ''fixing''] (trim rawMessage)));
          s2 = toLowerCase (take 1 s1) @ drop 1 s1;
          s3 = (if endsWith s2 ''.'' then butlast s2 else s2);
          s4 = (if length s3 > 72 then take 69 s3 @ ''...'' else s3)
      in \<lparr>a_type = type, a_subject = s4,
          a_confidence = (if truthy detectedType then ''high'' else ''medium'')\<rparr>)"

record suggestion =
  s_type :: string
  s_message :: string

record analysis =
  an_valid :: bool
  an_suggestions :: "suggestion list"

text \<open>
  \<open>subject[0]\<close> of the empty string is \<open>undefined\<close>, and \<open>undefined.toUpperCase()\<close>
  raises a TypeError. Nothing guards the read.
\<close>

definition analyzeSubject :: "string \<Rightarrow> js_error + analysis" where
  "analyzeSubject subject =
     (let g1 = (if length subject > 72
                then [\<lparr>s_type = ''length'',
                       s_message = ''Subject is '' @ show_nat (length subject)
                                   @ '' chars (max 72). Consider shortening.''\<rparr>]
                else []);
          g2 = (if list_ex (\<lambda>a. ci_prefix a subject)
                     [''adds'', ''adding'', ''added'', ''fixes'', ''fixing'', ''fixed'',
                      ''updates'', ''updating'', ''updated'']
                then [\<lparr>s_type = ''mood'',
                       s_message = ''Use imperative mood (e.g., \"add\" not \"adds\" or \"added\")''\<rparr>]
                else [])
      in case subject of
           [] \<Rightarrow> Inl TypeError
         | s0 # _ \<Rightarrow>
             (let g3 = (if upper_fixed s0
                        then [\<lparr>s_type = ''case'', s_message = ''Start with lowercase letter''\<rparr>]
                        else []);
                  g4 = (if endsWith subject ''.''
                        then [\<lparr>s_type = ''punctuation'', s_message = ''Remove trailing period''\<rparr>]
                        else []);
                  suggestions = g1 @ g2 @ g3 @ g4
              in Inr \<lparr>an_valid = (length suggestions = 0), an_suggestions = suggestions\<rparr>))"

section \<open>The round trips, as the specification words them\<close>

text \<open>
  The components the specification calls well-formed: the type is one of the
  default types, and the subject is non-empty, starts in lower case (as the
  validator tests it, on the first character), has at most 72 characters, does not
  end with a period and does not start with one of the inflected forms
  \<open>isImperative\<close> looks for.
\<close>

definition claimed_well_formed :: "commit_components \<Rightarrow> bool" where
  "claimed_well_formed c =
     (c_type c \<in> set (map type_value defaults_types) \<and>
      c_subject c \<noteq> [] \<and>
      take 1 (c_subject c) = toLowerCase (take 1 (c_subject c)) \<and>
      length (c_subject c) \<le> 72 \<and>
      \<not> endsWith (c_subject c) ''.'' \<and>
      isImperative (c_subject c))"

text \<open>
  The round trip of the header: \<open>parse(format(c))\<close> is not \<open>null\<close> and has the type,
  the scope and the subject of \<open>c\<close>.
\<close>

definition header_round_trip :: "commit_components \<Rightarrow> bool" where
  "header_round_trip c =
     (case parse (format c) of
        None \<Rightarrow> False
      | Some p \<Rightarrow> p_type p = c_type c \<and> p_scope p = c_scope c \<and> p_subject p = c_subject c)"

section \<open>Properties\<close>

subsection \<open>Strings\<close>

lemma trim_blank: "\<forall>c\<in>set m. is_space c \<Longrightarrow> trim m = []"
proof -
  assume "\<forall>c\<in>set m. is_space c"
  then have "dropWhile is_space m = []"
    by simp
  then show ?thesis
    by (auto simp: trim_def dest: set_dropWhileD)
qed

lemma split_on_not_Nil [simp]: "split_on c s \<noteq> []"
  by (induction s) (auto simp: Let_def)

lemma split_on_no_sep: "c \<notin> set s \<Longrightarrow> split_on c s = [s]"
  by (induction s) (auto simp: Let_def)

lemma split_on_append: "split_on c (xs @ c # ys) = split_on c xs @ split_on c ys"
  by (induction xs) (auto simp: Let_def)

lemma split_on_line_chars: "l \<in> set (split_on c s) \<Longrightarrow> set l \<subseteq> set s"
proof (induction s arbitrary: l)
  case Nil
  then show ?case by simp
next
  case (Cons x s)
  show ?case
  proof (cases "x = c")
    case True
    with Cons show ?thesis by (auto simp: Let_def)
  next
    case False
    obtain k ks where ks: "split_on c s = k # ks"
      by (cases "split_on c s") auto
    with False Cons.prems have "l = x # k \<or> l \<in> set ks"
      by (auto simp: Let_def)
    with Cons.IH ks show ?thesis
      by fastforce
  qed
qed

lemma split_on_line_no_sep: "l \<in> set (split_on c s) \<Longrightarrow> c \<notin> set l"
proof (induction s arbitrary: l)
  case Nil
  then show ?case by simp
next
  case (Cons x s)
  show ?case
  proof (cases "x = c")
    case True
    with Cons show ?thesis by (auto simp: Let_def)
  next
    case False
    obtain k ks where ks: "split_on c s = k # ks"
      by (cases "split_on c s") auto
    with False Cons.prems have "l = x # k \<or> l \<in> set ks"
      by (auto simp: Let_def)
    with Cons.IH ks False show ?thesis
      by fastforce
  qed
qed

lemma trim_not_blank: "\<exists>c\<in>set m. \<not> is_space c \<Longrightarrow> trim m \<noteq> []"
proof -
  assume "\<exists>c\<in>set m. \<not> is_space c"
  then have "dropWhile is_space m \<noteq> []"
    by simp
  then obtain x xs where d: "dropWhile is_space m = x # xs"
    by (cases "dropWhile is_space m") auto
  then have "\<not> is_space x"
    using hd_dropWhile [of is_space m] by simp
  then have "dropWhile is_space (rev (x # xs)) \<noteq> []"
    by (simp add: dropWhile_append)
  with d show ?thesis
    by (simp add: trim_def)
qed

lemma lower_char_upper: "is_upper c \<Longrightarrow> lower_char c \<noteq> c"
proof
  assume u: "is_upper c" and "lower_char c = c"
  then have "char_of (of_char c + (32::nat)) = c"
    by (simp add: lower_char_def)
  then have "of_char (char_of (of_char c + (32::nat))) = (of_char c :: nat)"
    by simp
  then have e: "(of_char c + 32) mod 256 = (of_char c :: nat)"
    by simp
  from u have "(of_char c :: nat) \<le> 90"
    by (simp add: is_upper_def less_eq_char_def)
  with e show False
    by simp
qed

lemma toLowerCase_upper: "\<exists>c\<in>set s. is_upper c \<Longrightarrow> toLowerCase s \<noteq> s"
proof (induction s)
  case Nil
  then show ?case by simp
next
  case (Cons a s)
  then show ?case
    by (auto simp: toLowerCase_def lower_char_upper)
qed

subsection \<open>The header pattern\<close>

lemma header_match_SomeD:
  assumes "header_match h = Some (ty, sc, su)"
  shows "ty \<noteq> []" and "su \<noteq> []" and "sc \<noteq> Some []" and "\<forall>c\<in>set ty. is_word c"
    and "ty = takeWhile is_word h"
  using assms
  by (auto simp: header_match_def Let_def split: list.splits if_splits prod.splits
      dest: set_takeWhileD)

lemma conventionalPattern_SomeD:
  assumes "conventionalPattern h = Some (ty, sc, su)"
  shows "ty \<noteq> []" and "su \<noteq> []" and "\<forall>c\<in>set ty. is_word c"
  using assms header_match_SomeD [of h]
  by (auto simp: conventionalPattern_def)

lemma validateSubject_total:
  "su \<noteq> [] \<Longrightarrow> \<exists>es. validateSubject v su = Inr es"
  by (cases su) (auto simp: validateSubject_def Let_def)

lemma not_word_chars [simp]:
  "\<not> is_word CHR ''(''" "\<not> is_word CHR '':''" "\<not> is_scope_char CHR '')''"
  "\<not> is_scope_char CHR '':''" "is_space CHR '' ''"
  by (simp_all add: is_word_def is_scope_char_def is_upper_def is_space_def less_eq_char_def)

lemma takeWhile_stop: "\<forall>c\<in>set xs. P c \<Longrightarrow> \<not> P y \<Longrightarrow> takeWhile P (xs @ y # ys) = xs"
  by (simp add: takeWhile_append2)

lemma dropWhile_stop: "\<forall>c\<in>set xs. P c \<Longrightarrow> \<not> P y \<Longrightarrow> dropWhile P (xs @ y # ys) = y # ys"
  by (simp add: dropWhile_append2)

lemma header_match_no_scope:
  assumes "ty \<noteq> []" and "\<forall>c\<in>set ty. is_word c"
    and "su \<noteq> []" and "\<not> is_space (hd su)" and "\<forall>c\<in>set su. \<not> is_line_terminator c"
  shows "header_match (ty @ '': '' @ su) = Some (ty, None, su)"
proof -
  obtain x xs where su: "su = x # xs"
    using assms(3) by (cases su) auto
  have t: "takeWhile is_word (ty @ CHR '':'' # rest) = ty" for rest
    using assms(2) by (simp add: takeWhile_stop)
  have d: "dropWhile is_word (ty @ CHR '':'' # rest) = CHR '':'' # rest" for rest
    using assms(2) by (simp add: dropWhile_stop)
  have l: "\<not> list_ex is_line_terminator su"
    using assms(5) by (simp add: list_ex_iff)
  show ?thesis
    using assms(1,4) l su
    by (simp add: header_match_def t d Let_def)
qed

lemma header_match_scope:
  assumes "ty \<noteq> []" and "\<forall>c\<in>set ty. is_word c"
    and "s \<noteq> []" and "\<forall>c\<in>set s. is_scope_char c"
    and "su \<noteq> []" and "\<not> is_space (hd su)" and "\<forall>c\<in>set su. \<not> is_line_terminator c"
  shows "header_match (ty @ ''('' @ s @ '')'' @ '': '' @ su) = Some (ty, Some s, su)"
proof -
  obtain x xs where su: "su = x # xs"
    using assms(5) by (cases su) auto
  have t: "takeWhile is_word (ty @ CHR ''('' # rest) = ty" for rest
    using assms(2) by (simp add: takeWhile_stop)
  have d: "dropWhile is_word (ty @ CHR ''('' # rest) = CHR ''('' # rest" for rest
    using assms(2) by (simp add: dropWhile_stop)
  have t2: "takeWhile is_scope_char (s @ CHR '')'' # rest) = s" for rest
    using assms(4) by (simp add: takeWhile_stop)
  have d2: "dropWhile is_scope_char (s @ CHR '')'' # rest) = CHR '')'' # rest" for rest
    using assms(4) by (simp add: dropWhile_stop)
  have l: "\<not> list_ex is_line_terminator su"
    using assms(7) by (simp add: list_ex_iff)
  show ?thesis
    using assms(1,3,6) l su
    by (simp add: header_match_def t d t2 d2 Let_def)
qed

subsection \<open>Blank messages\<close>

text \<open>
  C9. A message that is empty or made of whitespace only is rejected with the one
  error \<open>Commit message cannot be empty\<close>, whatever the configuration: no other
  check adds an error.
\<close>

theorem validate_blank_message:
  assumes "\<forall>c\<in>set message. is_space c"
  shows "validate v message =
           Inr \<lparr>valid = False, errors = [''Commit message cannot be empty'']\<rparr>"
  using assms by (simp add: validate_def trim_blank)

theorem validate_blank_message_witness:
  "list_all is_space '' \<newline>  '' \<and>
   validate (Validator no_override) '' \<newline>  '' =
     Inr \<lparr>valid = False, errors = [''Commit message cannot be empty'']\<rparr> \<and>
   validate (Validator no_override) '''' =
     Inr \<lparr>valid = False, errors = [''Commit message cannot be empty'']\<rparr>"
proof -
  have h: "\<forall>c\<in>set '' \<newline>  ''. is_space c"
    by (simp add: is_space_def)
  have e: "\<forall>c\<in>set ''''. is_space c"
    by simp
  have "list_all is_space '' \<newline>  ''"
    using h by (simp only: list_all_iff)
  then show ?thesis
    using validate_blank_message [OF h] validate_blank_message [OF e] by blast
qed

subsection \<open>Word wrap\<close>

text \<open>
  C3. \<open>wrapText\<close> compares \<open>currentLine + word\<close> with the limit and then joins the
  two with a space, which the comparison has not counted: \<open>wrapText("ab c", 3)\<close> is
  the single line \<open>ab c\<close>, two words and four characters. The instance of the claim,
  \<open>wrapText("a b c d", 3)\<close>, stays within three characters a line.
\<close>

theorem wrapText_line_over_maxLength:
  "wrapText ''ab c'' 3 = ''ab c'' \<and> split_on NL (wrapText ''ab c'' 3) = [''ab c''] \<and>
   length ''ab c'' = 4 \<and>
   split_on NL (wrapText ''a b c d'' 3) = [''a b'', ''c d'']"
  by code_simp

subsection \<open>Subject advice\<close>

text \<open>
  C4. \<open>analyzeSubject\<close> reads \<open>subject[0].toUpperCase()\<close> without a guard: on the
  empty string it raises a TypeError and returns no result.
\<close>

theorem analyzeSubject_empty_raises: "analyzeSubject '''' = Inl TypeError"
  by (simp add: analyzeSubject_def)

subsection \<open>Overriding the types\<close>

text \<open>
  C5. The constructor merges the override into \<open>config\<close> but takes \<open>validTypes\<close>
  from the defaults: a validator built with the types overridden to \<open>wip\<close> still
  rejects the type \<open>wip\<close> and lists the default types.
\<close>

theorem Validator_ignores_types_override:
  "validate (Validator (no_override\<lparr>o_types := Some [\<lparr>type_value = ''wip''\<rparr>]\<rparr>)) ''wip: add thing'' =
     Inr \<lparr>valid = False,
          errors = [''Invalid type \"wip\". Must be one of: feat, fix, docs, style, refactor, perf, test, build, ci, chore, revert'']\<rparr>"
  by code_simp

subsection \<open>Automatic formatting\<close>

text \<open>
  C6, as stated: \<open>autoFormat("fixed login bug")\<close> is not
  \<open>{type: "fix", subject: "login bug", confidence: "medium"}\<close>.
\<close>

theorem autoFormat_fixed_login_bug_keeps_prefix:
  "autoFormat ''fixed login bug'' None \<noteq>
     \<lparr>a_type = ''fix'', a_subject = ''login bug'', a_confidence = ''medium''\<rparr>"
  by code_simp

text \<open>
  C6, amended. \<open>autoFormat("fixed login bug")\<close> with no type given is
  \<open>{type: "fix", subject: "fixed login bug", confidence: "medium"}\<close>: the type comes
  from the keyword \<open>fix\<close>, and the prefix patterns need the colon, so nothing is
  removed; \<open>autoFormat("fixed: login bug")\<close> has the subject \<open>login bug\<close>.
\<close>

theorem autoFormat_fixed_login_bug:
  "detectType ''fixed login bug'' = Some ''fix'' \<and>
   autoFormat ''fixed login bug'' None =
     \<lparr>a_type = ''fix'', a_subject = ''fixed login bug'', a_confidence = ''medium''\<rparr> \<and>
   autoFormat ''fixed: login bug'' None =
     \<lparr>a_type = ''fix'', a_subject = ''login bug'', a_confidence = ''medium''\<rparr>"
  by code_simp

subsection \<open>The case of the type\<close>

lemma validateHeader_uppercase_type:
  assumes "conventionalPattern header = Some (type, scope, subject)"
    and "\<exists>c\<in>set type. is_upper c"
  shows "\<exists>es. validateHeader v header = Inr es \<and> ''Type must be lowercase'' \<in> set es"
proof -
  from assms(1) have "subject \<noteq> []"
    by (rule conventionalPattern_SomeD)
  then obtain ses where ses: "validateSubject v subject = Inr ses"
    using validateSubject_total by blast
  from assms(2) have "type \<noteq> toLowerCase type"
    using toLowerCase_upper [of type] by auto
  with assms(1) ses show ?thesis
    by (simp add: validateHeader_def Let_def)
qed

text \<open>
  C8. \<open>validate("FEAT(auth): add login")\<close> is invalid with two errors, the one on
  the membership of the type and \<open>Type must be lowercase\<close>. For every validator,
  whatever its list of valid types, and every header the pattern matches with an
  upper-case letter in the type, \<open>validateHeader\<close> returns errors and
  \<open>Type must be lowercase\<close> is among them: the test on the case does not depend on
  the test on the membership.
\<close>

theorem uppercase_type_flagged:
  "validate (Validator no_override) ''FEAT(auth): add login'' =
     Inr \<lparr>valid = False,
          errors = [''Invalid type \"FEAT\". Must be one of: feat, fix, docs, style, refactor, perf, test, build, ci, chore, revert'',
                    ''Type must be lowercase'']\<rparr> \<and>
   (\<forall>v header type scope subject.
      conventionalPattern header = Some (type, scope, subject) \<and> (\<exists>c\<in>set type. is_upper c) \<longrightarrow>
      (\<exists>es. validateHeader v header = Inr es \<and> ''Type must be lowercase'' \<in> set es))"
proof -
  have "validate (Validator no_override) ''FEAT(auth): add login'' =
     Inr \<lparr>valid = False,
          errors = [''Invalid type \"FEAT\". Must be one of: feat, fix, docs, style, refactor, perf, test, build, ci, chore, revert'',
                    ''Type must be lowercase'']\<rparr>"
    by code_simp
  then show ?thesis
    using validateHeader_uppercase_type by blast
qed

theorem uppercase_type_flagged_witness:
  "conventionalPattern ''FEAT(auth): add login'' = Some (''FEAT'', Some ''(auth)'', ''add login'') \<and>
   list_ex is_upper ''FEAT'' \<and>
   (\<exists>es. validateHeader ((Validator no_override)\<lparr>validTypes := [''FEAT'']\<rparr>) ''FEAT(auth): add login'' = Inr es \<and>
         ''Type must be lowercase'' \<in> set es) \<and>
   validateHeader ((Validator no_override)\<lparr>validTypes := [''FEAT'']\<rparr>) ''FEAT(auth): add login'' =
     Inr [''Type must be lowercase'']"
proof -
  have m: "conventionalPattern ''FEAT(auth): add login'' = Some (''FEAT'', Some ''(auth)'', ''add login'')"
    by code_simp
  have u: "list_ex is_upper ''FEAT''"
    by code_simp
  then have u': "\<exists>c\<in>set ''FEAT''. is_upper c"
    by (simp only: list_ex_iff)
  have e: "validateHeader ((Validator no_override)\<lparr>validTypes := [''FEAT'']\<rparr>) ''FEAT(auth): add login'' =
     Inr [''Type must be lowercase'']"
    by code_simp
  from uppercase_type_flagged m u'
  have "\<exists>es. validateHeader ((Validator no_override)\<lparr>validTypes := [''FEAT'']\<rparr>) ''FEAT(auth): add login'' = Inr es \<and>
         ''Type must be lowercase'' \<in> set es"
    by blast
  with m u e show ?thesis
    by blast
qed

subsection \<open>The second line\<close>

text \<open>
  C10. Two messages with the same first line, which is not blank, and the same
  lines from the third on have the same result, whatever their second lines are;
  and a message of two lines has the result of its first line alone.
\<close>

theorem validate_ignores_second_line:
  assumes "split_on NL m = h # l2 # rest" and "split_on NL m' = h # l2' # rest"
    and "\<exists>c\<in>set h. \<not> is_space c"
  shows "validate v m = validate v m' \<and> (rest = [] \<longrightarrow> validate v m = validate v h)"
proof -
  have sub: "set h \<subseteq> set m" "set h \<subseteq> set m'"
    using assms(1,2) split_on_line_chars [of h NL m] split_on_line_chars [of h NL m'] by auto
  with assms(3) have nb: "trim m \<noteq> []" "trim m' \<noteq> []" "trim h \<noteq> []"
    by (auto intro!: trim_not_blank)
  then have ne: "m \<noteq> []" "m' \<noteq> []" "h \<noteq> []"
    using assms(3) sub by auto
  have "NL \<notin> set h"
    using assms(1) split_on_line_no_sep [of h NL m] by simp
  then have sh: "split_on NL h = [h]"
    by (rule split_on_no_sep)
  have 1: "validate v m = validate v m'"
    using nb ne assms(1,2) by (simp add: validate_def Let_def split: sum.splits)
  have 2: "rest = [] \<longrightarrow> validate v m = validate v h"
    using nb ne assms(1) sh by (simp add: validate_def Let_def)
  from 1 2 show ?thesis ..
qed

theorem validate_ignores_second_line_witness:
  "validate (Validator no_override) ''feat: add login\<newline>this second line is never read\<newline>body'' =
   validate (Validator no_override) ''feat: add login\<newline>\<newline>body'' \<and>
   validate (Validator no_override) (''feat: add login\<newline>'' @ replicate 200 CHR ''x'') =
   validate (Validator no_override) ''feat: add login\<newline>'' \<and>
   validate (Validator no_override) ''feat: add login\<newline>'' = validate (Validator no_override) ''feat: add login''"
proof -
  have s1: "split_on NL ''feat: add login\<newline>this second line is never read\<newline>body'' =
              [''feat: add login'', ''this second line is never read'', ''body'']"
    by code_simp
  have s2: "split_on NL ''feat: add login\<newline>\<newline>body'' = [''feat: add login'', [], ''body'']"
    by code_simp
  have s3: "split_on NL (''feat: add login\<newline>'' @ replicate 200 CHR ''x'') =
              [''feat: add login'', replicate 200 CHR ''x'']"
    by (simp add: split_on_no_sep Let_def)
  have s4: "split_on NL ''feat: add login\<newline>'' = [''feat: add login'', []]"
    by code_simp
  have nb: "\<exists>c\<in>set ''feat: add login''. \<not> is_space c"
    by (simp add: is_space_def)
  have a: "validate (Validator no_override) ''feat: add login\<newline>this second line is never read\<newline>body'' =
           validate (Validator no_override) ''feat: add login\<newline>\<newline>body''"
    using validate_ignores_second_line [OF s1 s2 nb] by blast
  have b: "validate (Validator no_override) (''feat: add login\<newline>'' @ replicate 200 CHR ''x'') =
           validate (Validator no_override) ''feat: add login\<newline>''"
    using validate_ignores_second_line [OF s3 s4 nb] by blast
  have c: "validate (Validator no_override) ''feat: add login\<newline>'' =
           validate (Validator no_override) ''feat: add login''"
    using validate_ignores_second_line [OF s4 s4 nb] by blast
  from a b c show ?thesis
    by blast
qed

subsection \<open>Body and footer of a parsed message\<close>

lemma find_body_start_first:
  assumes "\<forall>l\<in>set pre. trim l \<noteq> []" and "trim b = []" and "block \<noteq> []"
  shows "find_body_start i (pre @ b # block) = Some (i + length pre + 1)"
  using assms by (induction pre arbitrary: i) auto

lemma findIndex_None: "\<forall>x\<in>set xs. \<not> P x \<Longrightarrow> findIndex P xs = None"
  by (induction xs) auto

lemma findIndex_Some:
  "\<exists>x\<in>set xs. P x \<Longrightarrow> findIndex P xs = Some (length (takeWhile (\<lambda>x. \<not> P x) xs))"
  by (induction xs) auto

lemma take_length_takeWhile: "take (length (takeWhile Q xs)) xs = takeWhile Q xs"
  by (induction xs) auto

lemma drop_length_takeWhile: "drop (length (takeWhile Q xs)) xs = dropWhile Q xs"
  by (induction xs) auto

lemma includes_str_empty: "p \<noteq> [] \<Longrightarrow> \<not> includes_str [] p"
  by (simp add: includes_str_def)

lemma trim_Nil [simp]: "trim [] = []"
  by (simp add: trim_def)

lemma parse_block:
  assumes "split_on NL message = h # pre @ b # block"
    and "header_match h = Some (type, scope, subject)"
    and "\<forall>l\<in>set pre. trim l \<noteq> []" and "trim b = []" and "block \<noteq> []"
  shows "parse message =
           Some \<lparr>p_type = type, p_scope = scope, p_subject = subject,
                 p_body = or_null (trim (join [NL] (takeWhile (\<lambda>l. \<not> is_footer_start l) block))),
                 p_footer = or_null (trim (join [NL] (dropWhile (\<lambda>l. \<not> is_footer_start l) block))),
                 p_breaking = includes_str (trim (join [NL] (dropWhile (\<lambda>l. \<not> is_footer_start l) block)))
                                ''BREAKING CHANGE:''\<rparr>"
proof -
  have hd: "hd (split_on NL message) = h"
    using assms(1) by simp
  have fb: "find_body_start (Suc 0) (tl (split_on NL message)) = Some (Suc (Suc (length pre)))"
    using find_body_start_first [OF assms(3,4,5), of 1] assms(1) by simp
  have dr: "drop (Suc (Suc (length pre))) (split_on NL message) = block"
    using assms(1) by simp
  have sc: "(case scope of None \<Rightarrow> None | Some s \<Rightarrow> or_null s) = scope"
    using header_match_SomeD(3) [OF assms(2)] by (cases scope) (auto simp: or_null_def)
  have split:
    "(case findIndex is_footer_start block of
        None \<Rightarrow> (trim (join [NL] block), [])
      | Some fi \<Rightarrow> (trim (join [NL] (take fi block)), trim (join [NL] (drop fi block)))) =
     (trim (join [NL] (takeWhile (\<lambda>l. \<not> is_footer_start l) block)),
      trim (join [NL] (dropWhile (\<lambda>l. \<not> is_footer_start l) block)))"
  proof (cases "\<exists>l\<in>set block. is_footer_start l")
    case True
    then show ?thesis
      by (simp add: findIndex_Some take_length_takeWhile drop_length_takeWhile)
  next
    case False
    then have all: "\<forall>l\<in>set block. \<not> is_footer_start l"
      by simp
    then have tw: "takeWhile (\<lambda>l. \<not> is_footer_start l) block = block"
      and dw: "dropWhile (\<lambda>l. \<not> is_footer_start l) block = []"
      by simp_all
    show ?thesis
      by (simp add: findIndex_None [OF all] tw dw)
  qed
  show ?thesis
    by (simp add: parse_def Let_def hd fb dr sc split assms(2))
qed

text \<open>
  C2. Take a message whose first line \<open>h\<close> matches the header pattern and whose lines
  after it are \<open>pre\<close>, none of them blank, then a blank line \<open>b\<close>, then a block that
  is not empty: the block is what follows the first blank line. Then \<open>parse\<close>
  returns the type, scope and subject of the match; the body is the trimmed text
  of the lines before the first line that starts with \<open>BREAKING CHANGE:\<close>,
  \<open>Closes\<close>, \<open>Fixes\<close> or \<open>Refs\<close>, and the footer the trimmed text of the lines from
  that one on; with no such line the footer is \<open>null\<close> and the body is the whole
  block, trimmed; \<open>breaking\<close> is true iff there is a footer and it contains
  \<open>BREAKING CHANGE:\<close>; and scope, body and footer are never the empty string (an
  empty text is \<open>null\<close>).
\<close>

theorem parse_trailing_block:
  assumes "split_on NL message = h # pre @ b # block"
    and "header_match h = Some (type, scope, subject)"
    and "\<forall>l\<in>set pre. trim l \<noteq> []" and "trim b = []" and "block \<noteq> []"
  shows "\<exists>p. parse message = Some p \<and>
           p_type p = type \<and> p_scope p = scope \<and> p_subject p = subject \<and>
           p_body p = (let t = trim (join [NL] (takeWhile (\<lambda>l. \<not> is_footer_start l) block))
                       in if t = [] then None else Some t) \<and>
           p_footer p = (let t = trim (join [NL] (dropWhile (\<lambda>l. \<not> is_footer_start l) block))
                         in if t = [] then None else Some t) \<and>
           ((\<forall>l\<in>set block. \<not> is_footer_start l) \<longrightarrow>
              p_footer p = None \<and>
              p_body p = (let t = trim (join [NL] block) in if t = [] then None else Some t)) \<and>
           p_breaking p = (case p_footer p of
                             None \<Rightarrow> False
                           | Some f \<Rightarrow> includes_str f ''BREAKING CHANGE:'') \<and>
           p_scope p \<noteq> Some [] \<and> p_body p \<noteq> Some [] \<and> p_footer p \<noteq> Some []"
proof -
  let ?B = "trim (join [NL] (takeWhile (\<lambda>l. \<not> is_footer_start l) block))"
  let ?F = "trim (join [NL] (dropWhile (\<lambda>l. \<not> is_footer_start l) block))"
  let ?p = "\<lparr>p_type = type, p_scope = scope, p_subject = subject,
             p_body = or_null ?B, p_footer = or_null ?F,
             p_breaking = includes_str ?F ''BREAKING CHANGE:''\<rparr>"
  have p: "parse message = Some ?p"
    using assms by (rule parse_block)
  have sc: "scope \<noteq> Some []"
    using assms(2) by (rule header_match_SomeD)
  have nofooter: "(\<forall>l\<in>set block. \<not> is_footer_start l) \<longrightarrow>
                    p_footer ?p = None \<and>
                    p_body ?p = (let t = trim (join [NL] block) in if t = [] then None else Some t)"
  proof
    assume all: "\<forall>l\<in>set block. \<not> is_footer_start l"
    then have tw: "takeWhile (\<lambda>l. \<not> is_footer_start l) block = block"
      and dw: "dropWhile (\<lambda>l. \<not> is_footer_start l) block = []"
      by simp_all
    show "p_footer ?p = None \<and>
          p_body ?p = (let t = trim (join [NL] block) in if t = [] then None else Some t)"
      by (simp add: tw dw or_null_def Let_def)
  qed
  have br: "p_breaking ?p = (case p_footer ?p of
                               None \<Rightarrow> False
                             | Some f \<Rightarrow> includes_str f ''BREAKING CHANGE:'')"
    by (simp add: or_null_def includes_str_empty)
  show ?thesis
    using p sc nofooter br by (simp add: or_null_def Let_def)
qed

theorem parse_trailing_block_witness:
  "parse ''feat(auth): add login functionality\<newline>\<newline>Implemented JWT-based authentication.\<newline>Added tests and documentation.\<newline>\<newline>BREAKING CHANGE: Changed auth endpoint\<newline>Closes #123'' =
     Some \<lparr>p_type = ''feat'', p_scope = Some ''auth'', p_subject = ''add login functionality'',
           p_body = Some ''Implemented JWT-based authentication.\<newline>Added tests and documentation.'',
           p_footer = Some ''BREAKING CHANGE: Changed auth endpoint\<newline>Closes #123'',
           p_breaking = True\<rparr>"
proof -
  let ?m = "''feat(auth): add login functionality\<newline>\<newline>Implemented JWT-based authentication.\<newline>Added tests and documentation.\<newline>\<newline>BREAKING CHANGE: Changed auth endpoint\<newline>Closes #123''"
  let ?block = "[''Implemented JWT-based authentication.'', ''Added tests and documentation.'', [],
                 ''BREAKING CHANGE: Changed auth endpoint'', ''Closes #123'']"
  have s: "split_on NL ?m = ''feat(auth): add login functionality'' # [] @ [] # ?block"
    by code_simp
  have m: "header_match ''feat(auth): add login functionality'' =
             Some (''feat'', Some ''auth'', ''add login functionality'')"
    by code_simp
  have pre: "\<forall>l\<in>set []. trim l \<noteq> []"
    by simp
  have b: "trim [] = []"
    by simp
  have nb: "?block \<noteq> []"
    by simp
  have B: "trim (join [NL] (takeWhile (\<lambda>l. \<not> is_footer_start l) ?block)) =
             ''Implemented JWT-based authentication.\<newline>Added tests and documentation.''"
    by code_simp
  have F: "trim (join [NL] (dropWhile (\<lambda>l. \<not> is_footer_start l) ?block)) =
             ''BREAKING CHANGE: Changed auth endpoint\<newline>Closes #123''"
    by code_simp
  have I: "includes_str ''BREAKING CHANGE: Changed auth endpoint\<newline>Closes #123'' ''BREAKING CHANGE:''"
    by code_simp
  from parse_trailing_block [OF s m pre b nb] obtain p where
    p: "parse ?m = Some p" "p_type p = ''feat''" "p_scope p = Some ''auth''"
       "p_subject p = ''add login functionality''"
       "p_body p = (let t = trim (join [NL] (takeWhile (\<lambda>l. \<not> is_footer_start l) ?block))
                    in if t = [] then None else Some t)"
       "p_footer p = (let t = trim (join [NL] (dropWhile (\<lambda>l. \<not> is_footer_start l) ?block))
                      in if t = [] then None else Some t)"
       "p_breaking p = (case p_footer p of None \<Rightarrow> False | Some f \<Rightarrow> includes_str f ''BREAKING CHANGE:'')"
    by blast
  from p(5) have pb: "p_body p = Some ''Implemented JWT-based authentication.\<newline>Added tests and documentation.''"
    unfolding B by simp
  from p(6) have pf: "p_footer p = Some ''BREAKING CHANGE: Changed auth endpoint\<newline>Closes #123''"
    unfolding F by simp
  from p(7) have pk: "p_breaking p = True"
    unfolding pf using I by simp
  have "p = \<lparr>p_type = ''feat'', p_scope = Some ''auth'', p_subject = ''add login functionality'',
           p_body = Some ''Implemented JWT-based authentication.\<newline>Added tests and documentation.'',
           p_footer = Some ''BREAKING CHANGE: Changed auth endpoint\<newline>Closes #123'',
           p_breaking = True\<rparr>"
    using p(2,3,4) pb pf pk by (cases p) simp
  with p(1) show ?thesis
    by simp
qed

subsection \<open>Formatting, then parsing\<close>

lemma NL_classes [simp]:
  "\<not> is_word NL" "\<not> is_scope_char NL" "is_line_terminator NL"
  by (simp_all add: is_word_def is_scope_char_def is_upper_def is_line_terminator_def
      less_eq_char_def)

lemma header_no_NL:
  assumes "\<forall>ch\<in>set ty. is_word ch"
    and "case sc of None \<Rightarrow> True | Some s \<Rightarrow> \<forall>ch\<in>set s. is_scope_char ch"
    and "\<forall>ch\<in>set su. \<not> is_line_terminator ch"
  shows "NL \<notin> set (ty @ (case sc of None \<Rightarrow> [] | Some s \<Rightarrow> if s \<noteq> [] then ''('' @ s @ '')'' else [])
                     @ '': '' @ su)"
  using assms by (cases sc) auto

lemma header_match_header:
  assumes "ty \<noteq> []" and "\<forall>ch\<in>set ty. is_word ch"
    and "case sc of None \<Rightarrow> True | Some s \<Rightarrow> \<forall>ch\<in>set s. is_scope_char ch"
    and "su \<noteq> []" and "\<not> is_space (hd su)" and "\<forall>ch\<in>set su. \<not> is_line_terminator ch"
  shows "header_match (ty @ (case sc of None \<Rightarrow> [] | Some s \<Rightarrow> if s \<noteq> [] then ''('' @ s @ '')'' else [])
                        @ '': '' @ su) =
           Some (ty, (case sc of None \<Rightarrow> None | Some s \<Rightarrow> or_null s), su)"
proof (cases sc)
  case None
  then show ?thesis
    using header_match_no_scope [OF assms(1,2,4,5,6)] by simp
next
  case (Some s)
  show ?thesis
  proof (cases "s = []")
    case True
    with Some show ?thesis
      using header_match_no_scope [OF assms(1,2,4,5,6)] by (simp add: or_null_def)
  next
    case False
    have "\<forall>ch\<in>set s. is_scope_char ch"
      using assms(3) Some by simp
    from header_match_scope [OF assms(1,2) False this assms(4,5,6)] Some False
    show ?thesis
      by (simp add: or_null_def)
  qed
qed

text \<open>
  C7, as stated: three components with body, breaking and footer \<open>null\<close> whose
  header does not come back. The pattern skips the whitespace after the colon, so
  the leading space of a subject is lost; a subject with a line break is cut at
  it; and a type that is not a run of word characters makes \<open>parse\<close> return
  \<open>null\<close>.
\<close>

theorem leading_space_breaks_round_trip:
  "\<not> header_round_trip \<lparr>c_type = ''feat'', c_scope = None, c_subject = '' add login'',
                          c_body = None, c_breaking = None, c_footer = None\<rparr> \<and>
   \<not> header_round_trip \<lparr>c_type = ''feat'', c_scope = None, c_subject = ''add login\<newline>now'',
                          c_body = None, c_breaking = None, c_footer = None\<rparr> \<and>
   \<not> header_round_trip \<lparr>c_type = ''new feature'', c_scope = None, c_subject = ''add login'',
                          c_body = None, c_breaking = None, c_footer = None\<rparr>"
  by code_simp

text \<open>
  C7, amended. For components with body, breaking and footer \<open>null\<close>, whose type is
  a non-empty run of word characters, whose scope is \<open>null\<close> or a non-empty run of
  \<open>[\w-]\<close>, and whose subject is non-empty, does not start with whitespace (a
  character of \<open>\s\<close>) and has no line terminator (LF, CR, U+2028 or U+2029, the
  characters \<open>.\<close> refuses): \<open>parse(format(c))\<close> is not \<open>null\<close> and has the type,
  scope and subject of \<open>c\<close>. The theorem is over the strings of the model, where
  the line terminators are LF and CR.
\<close>

theorem header_round_trip_tokens:
  assumes "c_body c = None" and "c_breaking c = None" and "c_footer c = None"
    and "c_type c \<noteq> []" and "\<forall>ch\<in>set (c_type c). is_word ch"
    and "case c_scope c of None \<Rightarrow> True | Some s \<Rightarrow> s \<noteq> [] \<and> (\<forall>ch\<in>set s. is_scope_char ch)"
    and "c_subject c \<noteq> []" and "\<not> is_space (hd (c_subject c))"
    and "\<forall>ch\<in>set (c_subject c). \<not> is_line_terminator ch"
  shows "header_round_trip c"
proof -
  define h where
    "h = c_type c @
         (case c_scope c of None \<Rightarrow> [] | Some s \<Rightarrow> if s \<noteq> [] then ''('' @ s @ '')'' else []) @
         '': '' @ c_subject c"
  have sc: "case c_scope c of None \<Rightarrow> True | Some s \<Rightarrow> \<forall>ch\<in>set s. is_scope_char ch"
    using assms(6) by (cases "c_scope c") auto
  have f: "format c = h"
    using assms(1,2,3) by (simp add: format_def h_def)
  have "NL \<notin> set h"
    unfolding h_def using assms(5) sc assms(9) by (rule header_no_NL)
  then have s: "split_on NL h = [h]"
    by (rule split_on_no_sep)
  have m: "header_match h =
             Some (c_type c, (case c_scope c of None \<Rightarrow> None | Some s \<Rightarrow> or_null s), c_subject c)"
    unfolding h_def using assms(4,5) sc assms(7,8,9) by (rule header_match_header)
  have o: "(case c_scope c of None \<Rightarrow> None | Some s \<Rightarrow> or_null s) = c_scope c"
    using assms(6) by (cases "c_scope c") (auto simp: or_null_def)
  have "parse h = Some \<lparr>p_type = c_type c, p_scope = c_scope c, p_subject = c_subject c,
                        p_body = None, p_footer = None, p_breaking = False\<rparr>"
    unfolding parse_def s by (simp add: m o or_null_def Let_def)
  then show ?thesis
    by (simp add: header_round_trip_def f)
qed

theorem header_round_trip_tokens_witness:
  "header_round_trip \<lparr>c_type = ''fix'', c_scope = Some ''auth'',
                       c_subject = ''resolve login timeout issue'',
                       c_body = None, c_breaking = None, c_footer = None\<rparr> \<and>
   parse ''fix(auth): resolve login timeout issue'' =
     Some \<lparr>p_type = ''fix'', p_scope = Some ''auth'', p_subject = ''resolve login timeout issue'',
           p_body = None, p_footer = None, p_breaking = False\<rparr>"
proof -
  let ?c = "\<lparr>c_type = ''fix'', c_scope = Some ''auth'',
             c_subject = ''resolve login timeout issue'',
             c_body = None, c_breaking = None, c_footer = None\<rparr>"
  have "header_round_trip ?c"
    by (rule header_round_trip_tokens)
      (simp_all add: is_word_def is_scope_char_def is_upper_def is_space_def
        is_line_terminator_def less_eq_char_def)
  moreover have "parse ''fix(auth): resolve login timeout issue'' =
     Some \<lparr>p_type = ''fix'', p_scope = Some ''auth'', p_subject = ''resolve login timeout issue'',
           p_body = None, p_footer = None, p_breaking = False\<rparr>"
    by code_simp
  ultimately show ?thesis ..
qed

subsection \<open>Formatting, then validating\<close>

lemma split_on_join:
  "ps \<noteq> [] \<Longrightarrow> split_on NL (join [NL] ps) = concat (map (split_on NL) ps)"
proof (induction ps)
  case Nil
  then show ?case by simp
next
  case (Cons l ps)
  show ?case
  proof (cases ps)
    case Nil
    then show ?thesis by simp
  next
    case (Cons v va)
    have "split_on NL (l @ NL # join [NL] (v # va)) = split_on NL l @ split_on NL (join [NL] (v # va))"
      by (rule split_on_append)
    moreover have "split_on NL (join [NL] (v # va)) = concat (map (split_on NL) (v # va))"
      using Cons.IH Cons by simp
    ultimately show ?thesis
      using Cons by (simp del: split_on.simps)
  qed
qed

lemma validateBody_ok:
  assumes "\<forall>l\<in>set ls. length l \<le> maxLineLength (config v)"
  shows "validateBody v ls = []"
proof -
  have "\<And>p. p \<in> set (enumerate 0 ls) \<Longrightarrow> snd p \<in> set ls"
    by (auto simp: in_set_enumerate_eq)
  with assms have "\<And>p. p \<in> set (enumerate 0 ls) \<Longrightarrow> \<not> length (snd p) > maxLineLength (config v)"
    by (simp add: leD)
  then show ?thesis
    unfolding validateBody_def by (simp add: case_prod_beta)
qed

lemma word_not_space: "is_word ch \<Longrightarrow> \<not> is_space ch"
  by (auto simp: is_word_def is_upper_def is_space_def less_eq_char_def)

lemma default_types_tokens:
  "list_all (\<lambda>t. t \<noteq> [] \<and> list_all is_word t \<and> t = toLowerCase t) (map type_value defaults_types)"
  by code_simp

lemma default_type_token:
  assumes "t \<in> set (map type_value defaults_types)"
  shows "t \<noteq> []" and "\<forall>ch\<in>set t. is_word ch" and "t = toLowerCase t"
    and "t \<in> set (validTypes (Validator ov))"
proof -
  from default_types_tokens assms
  have a: "t \<noteq> [] \<and> list_all is_word t \<and> t = toLowerCase t"
    unfolding list_all_iff by blast
  then show "t \<noteq> []" and "t = toLowerCase t"
    by blast+
  from a show "\<forall>ch\<in>set t. is_word ch"
    unfolding list_all_iff by blast
  from assms show "t \<in> set (validTypes (Validator ov))"
    by (simp add: Validator_def)
qed

lemma validateSubject_default_ok:
  assumes "su \<noteq> []" and "take 1 su = toLowerCase (take 1 su)"
    and "3 \<le> length su" and "length su \<le> 72"
    and "\<not> endsWith su ''.''" and "isImperative su"
  shows "validateSubject (Validator no_override) su = Inr []"
proof -
  obtain x xs where su: "su = x # xs"
    using assms(1) by (cases su) auto
  have c: "config (Validator no_override) = defaults_rules"
    by (simp add: Validator_def spread_def no_override_def defaults_rules_def)
  from assms(2) su have x: "[x] = toLowerCase [x]"
    by (simp add: toLowerCase_def)
  have l: "\<not> length su > 72" "\<not> length su < 3"
    using assms(3,4) by simp_all
  show ?thesis
    unfolding validateSubject_def c
    using l assms(5,6) x su by (simp add: defaults_rules_def Let_def)
qed

lemma validate_header_and_body:
  assumes "split_on NL message = h # R"
    and "\<exists>ch\<in>set h. \<not> is_space ch"
    and "validateHeader v h = Inr []"
    and "\<forall>l\<in>set R. length l \<le> maxLineLength (config v)"
  shows "validate v message = Inr \<lparr>valid = True, errors = []\<rparr>"
proof -
  have "set h \<subseteq> set message"
    using assms(1) split_on_line_chars [of h NL message] by simp
  with assms(2) have nb: "trim message \<noteq> []" and ne: "message \<noteq> []"
    by (auto intro!: trim_not_blank)
  have "set (drop 2 (h # R)) \<subseteq> set R"
    by (simp add: numeral_2_eq_2 set_drop_subset)
  with assms(4) have "validateBody v (drop 2 (h # R)) = []"
    by (auto intro!: validateBody_ok)
  then show ?thesis
    using nb ne assms(1,3) by (simp add: validate_def Let_def)
qed

text \<open>
  C1, as stated: components that are well-formed in the words of the claim and
  whose formatted message the default validator rejects. The subject \<open>ab\<close> is
  shorter than \<open>minSubjectLength\<close>; the space before \<open>Add login\<close> is skipped by the
  pattern, which leaves an upper-case first letter; a carriage return in the
  subject, or a space in the scope, makes the header fail the pattern; a word of
  101 characters in the body stays on one line; and the breaking description and
  the footer are not wrapped, so 84 and 101 characters give a line of 101.
\<close>

theorem short_subject_rejected:
  "claimed_well_formed \<lparr>c_type = ''feat'', c_scope = None, c_subject = ''ab'',
                          c_body = None, c_breaking = None, c_footer = None\<rparr> \<and>
   validate (Validator no_override)
     (format \<lparr>c_type = ''feat'', c_scope = None, c_subject = ''ab'',
              c_body = None, c_breaking = None, c_footer = None\<rparr>) =
     Inr \<lparr>valid = False, errors = [''Subject is too short (2 chars). Minimum is 3'']\<rparr> \<and>
   claimed_well_formed \<lparr>c_type = ''feat'', c_scope = None, c_subject = '' Add login'',
                          c_body = None, c_breaking = None, c_footer = None\<rparr> \<and>
   validate (Validator no_override)
     (format \<lparr>c_type = ''feat'', c_scope = None, c_subject = '' Add login'',
              c_body = None, c_breaking = None, c_footer = None\<rparr>) =
     Inr \<lparr>valid = False, errors = [''Subject must start with lowercase letter'']\<rparr> \<and>
   claimed_well_formed \<lparr>c_type = ''feat'', c_scope = None,
                          c_subject = ''add login'' @ [CHR 0x0D] @ ''now'',
                          c_body = None, c_breaking = None, c_footer = None\<rparr> \<and>
   validate (Validator no_override)
     (format \<lparr>c_type = ''feat'', c_scope = None,
              c_subject = ''add login'' @ [CHR 0x0D] @ ''now'',
              c_body = None, c_breaking = None, c_footer = None\<rparr>) =
     Inr \<lparr>valid = False, errors = [''Header must follow format: type(scope): subject'']\<rparr> \<and>
   claimed_well_formed \<lparr>c_type = ''feat'', c_scope = Some ''user auth'', c_subject = ''add login'',
                          c_body = None, c_breaking = None, c_footer = None\<rparr> \<and>
   validate (Validator no_override)
     (format \<lparr>c_type = ''feat'', c_scope = Some ''user auth'', c_subject = ''add login'',
              c_body = None, c_breaking = None, c_footer = None\<rparr>) =
     Inr \<lparr>valid = False, errors = [''Header must follow format: type(scope): subject'']\<rparr> \<and>
   claimed_well_formed \<lparr>c_type = ''feat'', c_scope = None, c_subject = ''add login'',
                          c_body = Some (replicate 101 CHR ''a''), c_breaking = None,
                          c_footer = None\<rparr> \<and>
   validate (Validator no_override)
     (format \<lparr>c_type = ''feat'', c_scope = None, c_subject = ''add login'',
              c_body = Some (replicate 101 CHR ''a''), c_breaking = None, c_footer = None\<rparr>) =
     Inr \<lparr>valid = False, errors = [''Body line 1 is too long (101 chars). Maximum is 100'']\<rparr> \<and>
   claimed_well_formed \<lparr>c_type = ''feat'', c_scope = None, c_subject = ''add login'',
                          c_body = None, c_breaking = Some (replicate 84 CHR ''a''),
                          c_footer = None\<rparr> \<and>
   validate (Validator no_override)
     (format \<lparr>c_type = ''feat'', c_scope = None, c_subject = ''add login'',
              c_body = None, c_breaking = Some (replicate 84 CHR ''a''), c_footer = None\<rparr>) =
     Inr \<lparr>valid = False, errors = [''Body line 1 is too long (101 chars). Maximum is 100'']\<rparr> \<and>
   claimed_well_formed \<lparr>c_type = ''feat'', c_scope = None, c_subject = ''add login'',
                          c_body = None, c_breaking = None,
                          c_footer = Some (replicate 101 CHR ''a'')\<rparr> \<and>
   validate (Validator no_override)
     (format \<lparr>c_type = ''feat'', c_scope = None, c_subject = ''add login'',
              c_body = None, c_breaking = None, c_footer = Some (replicate 101 CHR ''a'')\<rparr>) =
     Inr \<lparr>valid = False, errors = [''Body line 1 is too long (101 chars). Maximum is 100'']\<rparr>"
  by code_simp

text \<open>
  C1, amended. With the default configuration, \<open>validate(format(c))\<close> is valid with
  no errors for every \<open>c\<close> that is well-formed in the words of the claim and
  moreover has a subject of at least 3 characters that does not start with
  whitespace and has no line break, a scope that is \<open>null\<close> or made of \<open>[\w-]\<close>, and
  no line over 100 characters in the wrapped body, in \<open>BREAKING CHANGE: \<close> followed
  by the breaking description, and in the footer. What \<open>wrapText\<close> does to a body
  is left to the hypothesis on its lines.
\<close>

theorem validate_format_valid:
  assumes "claimed_well_formed c"
    and "3 \<le> length (c_subject c)"
    and "\<not> is_space (hd (c_subject c))"
    and "\<forall>ch\<in>set (c_subject c). \<not> is_line_terminator ch"
    and "case c_scope c of None \<Rightarrow> True | Some s \<Rightarrow> \<forall>ch\<in>set s. is_scope_char ch"
    and "case c_body c of None \<Rightarrow> True
         | Some b \<Rightarrow> \<forall>l\<in>set (split_on NL (wrapText b 100)). length l \<le> 100"
    and "case c_breaking c of None \<Rightarrow> True
         | Some b \<Rightarrow> \<forall>l\<in>set (split_on NL (''BREAKING CHANGE: '' @ b)). length l \<le> 100"
    and "case c_footer c of None \<Rightarrow> True
         | Some f \<Rightarrow> \<forall>l\<in>set (split_on NL f). length l \<le> 100"
  shows "validate (Validator no_override) (format c) = Inr \<lparr>valid = True, errors = []\<rparr>"
proof -
  define h where
    "h = c_type c @
         (case c_scope c of None \<Rightarrow> [] | Some s \<Rightarrow> if s \<noteq> [] then ''('' @ s @ '')'' else []) @
         '': '' @ c_subject c"
  define rest where
    "rest = (case c_body c of
               None \<Rightarrow> []
             | Some body \<Rightarrow> if body \<noteq> [] then [[], wrapText body 100] else []) @
            (case c_breaking c of
               None \<Rightarrow> []
             | Some breaking \<Rightarrow>
                 if breaking \<noteq> [] then [[], ''BREAKING CHANGE: '' @ breaking] else []) @
            (case c_footer c of
               None \<Rightarrow> []
             | Some footer \<Rightarrow>
                 if footer \<noteq> []
                 then (if \<not> truthy (c_breaking c) then [[]] else []) @ [footer]
                 else [])"
  have wf: "c_type c \<in> set (map type_value defaults_types)" "c_subject c \<noteq> []"
    "take 1 (c_subject c) = toLowerCase (take 1 (c_subject c))" "length (c_subject c) \<le> 72"
    "\<not> endsWith (c_subject c) ''.''" "isImperative (c_subject c)"
    using assms(1) by (simp_all add: claimed_well_formed_def)
  note ty = default_type_token(1,2,3) [OF wf(1)]
  note ty4 = default_type_token(4) [OF wf(1), of no_override]
  have f: "format c = join [NL] (h # rest)"
    by (simp add: format_def h_def rest_def del: join.simps split_on.simps)
  have "NL \<notin> set h"
    unfolding h_def using ty(2) assms(5,4) by (rule header_no_NL)
  then have sh: "split_on NL h = [h]"
    by (rule split_on_no_sep)
  have lines: "split_on NL (format c) = h # concat (map (split_on NL) rest)"
    unfolding f by (simp add: split_on_join sh del: join.simps)
  have e: "\<And>l. l \<in> set (split_on NL []) \<Longrightarrow> length l \<le> 100"
    by simp
  have short: "\<forall>p\<in>set rest. \<forall>l\<in>set (split_on NL p). length l \<le> 100"
    using assms(6,7,8) e
    by (auto simp: rest_def simp del: split_on.simps append.simps split: option.splits)
  then have R: "\<forall>l\<in>set (concat (map (split_on NL) rest)).
                  length l \<le> maxLineLength (config (Validator no_override))"
    by (auto simp: Validator_def spread_def no_override_def defaults_rules_def)
  obtain t ts where "c_type c = t # ts"
    using ty(1) by (cases "c_type c") auto
  with ty(2) have "t \<in> set h" and "\<not> is_space t"
    by (auto simp: h_def word_not_space)
  then have nb: "\<exists>ch\<in>set h. \<not> is_space ch"
    by blast
  have m: "header_match h =
             Some (c_type c, (case c_scope c of None \<Rightarrow> None | Some s \<Rightarrow> or_null s), c_subject c)"
    unfolding h_def using ty(1,2) assms(5) wf(2) assms(3,4) by (rule header_match_header)
  have su: "validateSubject (Validator no_override) (c_subject c) = Inr []"
    using wf(2,3) assms(2) wf(4,5,6) by (rule validateSubject_default_ok)
  have vh: "validateHeader (Validator no_override) h = Inr []"
    using ty(3) ty4 by (simp add: validateHeader_def conventionalPattern_def m su)
  from lines nb vh R show ?thesis
    by (rule validate_header_and_body)
qed

theorem validate_format_valid_witness:
  "validate (Validator no_override)
     (format \<lparr>c_type = ''fix'', c_scope = Some ''auth'',
              c_subject = ''resolve login timeout issue'',
              c_body = Some ''The session cookie expired before the redirect came back.'',
              c_breaking = Some ''sessions of older clients are dropped'',
              c_footer = Some ''Closes #42''\<rparr>) =
     Inr \<lparr>valid = True, errors = []\<rparr> \<and>
   format \<lparr>c_type = ''fix'', c_scope = Some ''auth'',
           c_subject = ''resolve login timeout issue'',
           c_body = Some ''The session cookie expired before the redirect came back.'',
           c_breaking = Some ''sessions of older clients are dropped'',
           c_footer = Some ''Closes #42''\<rparr> =
     ''fix(auth): resolve login timeout issue\<newline>\<newline>The session cookie expired before the redirect came back.\<newline>\<newline>BREAKING CHANGE: sessions of older clients are dropped\<newline>Closes #42''"
proof -
  let ?c = "\<lparr>c_type = ''fix'', c_scope = Some ''auth'',
             c_subject = ''resolve login timeout issue'',
             c_body = Some ''The session cookie expired before the redirect came back.'',
             c_breaking = Some ''sessions of older clients are dropped'',
             c_footer = Some ''Closes #42''\<rparr>"
  have wf: "claimed_well_formed ?c"
    by code_simp
  have l: "3 \<le> length (c_subject ?c)"
    by simp
  have sp: "\<not> is_space (hd (c_subject ?c))"
    by (simp add: is_space_def)
  have lt: "\<forall>ch\<in>set (c_subject ?c). \<not> is_line_terminator ch"
    by (simp add: is_line_terminator_def)
  have sc: "case c_scope ?c of None \<Rightarrow> True | Some s \<Rightarrow> \<forall>ch\<in>set s. is_scope_char ch"
    by (simp add: is_scope_char_def is_word_def is_upper_def less_eq_char_def)
  have w: "split_on NL (wrapText ''The session cookie expired before the redirect came back.'' 100) =
             [''The session cookie expired before the redirect came back.'']"
    by code_simp
  have bo: "case c_body ?c of None \<Rightarrow> True
            | Some b \<Rightarrow> \<forall>l\<in>set (split_on NL (wrapText b 100)). length l \<le> 100"
    by (simp add: w del: split_on.simps)
  have s2: "split_on NL (''BREAKING CHANGE: '' @ ''sessions of older clients are dropped'') =
              [''BREAKING CHANGE: sessions of older clients are dropped'']"
    by code_simp
  have br: "case c_breaking ?c of None \<Rightarrow> True
            | Some b \<Rightarrow> \<forall>l\<in>set (split_on NL (''BREAKING CHANGE: '' @ b)). length l \<le> 100"
    by (simp add: s2 del: split_on.simps append.simps)
  have s3: "split_on NL ''Closes #42'' = [''Closes #42'']"
    by code_simp
  have fo: "case c_footer ?c of None \<Rightarrow> True
            | Some f \<Rightarrow> \<forall>l\<in>set (split_on NL f). length l \<le> 100"
    by (simp add: s3 del: split_on.simps)
  have v: "validate (Validator no_override) (format ?c) = Inr \<lparr>valid = True, errors = []\<rparr>"
    using wf l sp lt sc bo br fo by (rule validate_format_valid)
  have f: "format ?c =
     ''fix(auth): resolve login timeout issue\<newline>\<newline>The session cookie expired before the redirect came back.\<newline>\<newline>BREAKING CHANGE: sessions of older clients are dropped\<newline>Closes #42''"
    by code_simp
  from v f show ?thesis ..
qed

end
